theory Spec2Isabelle
  imports Main "HOL-Library.AList" "HOL-Library.Sublist"
begin

section \<open>Python values and exceptions\<close>

text \<open>
  The records handled by \<^verbatim>\<open>mongodb_processor.py\<close> are JSON-like documents. A dictionary
  is an association list in insertion order, with string keys, as a Python \<^verbatim>\<open>dict\<close>
  keeps it. A caller can also pass a tuple, which is a sequence of Python and not a
  \<^verbatim>\<open>list\<close>. \<open>VOther\<close> stands for every other scalar a document can hold (a float, an
  ObjectId, a datetime): none of them is iterable and none is a list or a dict.
\<close>

datatype pyval =
    VNone
  | VBool bool
  | VInt int
  | VStr string
  | VList "pyval list"
  | VTuple "pyval list"
  | VDict "(string \<times> pyval) list"
  | VOther string

type_synonym pydict = "(string \<times> pyval) list"

text \<open>
  The exception classes that the code raises or names in an \<^verbatim>\<open>except\<close> clause.
  \<open>ValueError\<close> and \<open>PyMongoError\<close> carry their message; \<open>OtherException\<close> is any
  exception that is neither of the four classes before it.
\<close>

datatype exn =
    ValueError string
  | TypeError
  | KeyError string
  | PyMongoError string
  | OtherException string

subsection \<open>Operators of Python used by the code\<close>

text \<open>\<^verbatim>\<open>k in x\<close> for a string \<open>k\<close>: key membership on a dict, element membership on a
  list or a tuple, substring on a string, and a TypeError on a value that is not
  iterable.\<close>

fun py_in :: "string \<Rightarrow> pyval \<Rightarrow> exn + bool" where
  "py_in k (VDict kv) = Inr (k \<in> set (map fst kv))"
| "py_in k (VList xs) = Inr (VStr k \<in> set xs)"
| "py_in k (VTuple xs) = Inr (VStr k \<in> set xs)"
| "py_in k (VStr s) = Inr (sublist k s)"
| "py_in k VNone = Inl TypeError"
| "py_in k (VBool b) = Inl TypeError"
| "py_in k (VInt i) = Inl TypeError"
| "py_in k (VOther a) = Inl TypeError"

text \<open>\<^verbatim>\<open>x[k]\<close> for a string \<open>k\<close>: the value on a dict (KeyError when the key is missing),
  a TypeError on everything else (a list, a tuple or a string wants an integer index).\<close>

fun py_getitem :: "pyval \<Rightarrow> string \<Rightarrow> exn + pyval" where
  "py_getitem (VDict kv) k = (case map_of kv k of None \<Rightarrow> Inl (KeyError k) | Some v \<Rightarrow> Inr v)"
| "py_getitem x k = Inl TypeError"

text \<open>\<^verbatim>\<open>any(k in record for record in data)\<close>: the generator stops at the first record
  that contains \<open>k\<close>, and an exception of \<^verbatim>\<open>in\<close> before that point propagates.\<close>

fun py_any_in :: "string \<Rightarrow> pyval list \<Rightarrow> exn + bool" where
  "py_any_in k [] = Inr False"
| "py_any_in k (record # data) =
     (case py_in k record of
        Inl e \<Rightarrow> Inl e
      | Inr True \<Rightarrow> Inr True
      | Inr False \<Rightarrow> py_any_in k data)"

text \<open>\<^verbatim>\<open>d.update(nested)\<close>: the keys of \<open>nested\<close> are stored in their order; a key already
  present keeps its place and takes the new value, a new key goes to the end.\<close>

definition dict_update :: "pydict \<Rightarrow> pydict \<Rightarrow> pydict" where
  "dict_update d nested = fold (\<lambda>(k, v). AList.update k v) nested d"

text \<open>\<^verbatim>\<open>{k: v for k, v in d.items() if k in keys_to_select}\<close>\<close>

definition select_keys :: "string list \<Rightarrow> pydict \<Rightarrow> pydict" where
  "select_keys keys_to_select d = filter (\<lambda>(k, v). k \<in> set keys_to_select) d"

text \<open>\<^verbatim>\<open>key_rename_map.get(k, k)\<close>\<close>

definition rename_key :: "(string \<times> string) list \<Rightarrow> string \<Rightarrow> string" where
  "rename_key key_rename_map k = (case map_of key_rename_map k of None \<Rightarrow> k | Some k' \<Rightarrow> k')"

text \<open>\<^verbatim>\<open>{key_rename_map.get(k, k): v for k, v in d.items()}\<close>: the new dict is filled in
  the order of the items, so when two keys are renamed to the same name the later value
  wins.\<close>

definition rename_keys :: "(string \<times> string) list \<Rightarrow> pydict \<Rightarrow> pydict" where
  "rename_keys key_rename_map d =
     fold (\<lambda>(k, v). AList.update (rename_key key_rename_map k) v) d []"

section \<open>The record normalizer\<close>

text \<open>
  \<^verbatim>\<open>uuid.uuid4()\<close> is a collaborator outside the repository. It is a parameter of the
  model: \<open>uuid4 i\<close> is the string of the \<open>i\<close>-th identifier the generator hands out, and
  the number of identifiers drawn so far is threaded through the code as a counter.
\<close>

type_synonym uuid_gen = "nat \<Rightarrow> string"

definition default_keys_to_select :: "string list" where
  "default_keys_to_select =
     [''article_db_id'', ''artical_db_id'', ''published_datetime'', ''pair'', ''category_name'']"

definition invalid_input_msg :: string where
  "invalid_input_msg = ''Input data must be a list of dictionaries.''"

definition column_not_found_msg :: "string \<Rightarrow> string" where
  "column_not_found_msg column_name =
     ''Column '' @ [CHR 0x27] @ column_name @ [CHR 0x27] @ '' not found in the data.''"

definition neither_found_msg :: string where
  "neither_found_msg =
     ''Neither '' @ [CHR 0x27] @ ''analyst_consensus_output'' @ [CHR 0x27] @ '' nor '' @
     [CHR 0x27] @ ''analyst_outputs'' @ [CHR 0x27] @ '' found in the data.''"

text \<open>Lines 32 to 43: the column to process. \<^verbatim>\<open>if column_name:\<close> is Python's truth
  test, so \<^verbatim>\<open>None\<close> and the empty string both take the \<^verbatim>\<open>else\<close> branch.\<close>

definition detect_column :: "pyval list \<Rightarrow> exn + string" where
  "detect_column data =
     (case py_any_in ''analyst_consensus_output'' data of
        Inl e \<Rightarrow> Inl e
      | Inr True \<Rightarrow> Inr ''analyst_consensus_output''
      | Inr False \<Rightarrow>
          (case py_any_in ''analyst_outputs'' data of
             Inl e \<Rightarrow> Inl e
           | Inr True \<Rightarrow> Inr ''analyst_outputs''
           | Inr False \<Rightarrow> Inl (ValueError neither_found_msg)))"

fun determine_column :: "pyval list \<Rightarrow> string option \<Rightarrow> exn + string" where
  "determine_column data None = detect_column data"
| "determine_column data (Some column_name) =
     (if column_name \<noteq> [] then
        (case py_any_in column_name data of
           Inl e \<Rightarrow> Inl e
         | Inr False \<Rightarrow> Inl (ValueError (column_not_found_msg column_name))
         | Inr True \<Rightarrow> Inr column_name)
      else detect_column data)"

text \<open>Lines 49 to 64, the body of the inner loop: one output record from the parent record
  and one element of its nested list, stamped with the identifier \<open>uuid4 n\<close>.\<close>

definition flattened_record ::
  "uuid_gen \<Rightarrow> string \<Rightarrow> string list \<Rightarrow> (string \<times> string) list option \<Rightarrow>
   pydict \<Rightarrow> pyval \<Rightarrow> nat \<Rightarrow> pydict" where
  "flattened_record uuid4 column_name keys_to_select key_rename_map record nested n =
     (let r1 = AList.delete ''_id'' (AList.delete column_name record);
          r2 = (case nested of VDict kv \<Rightarrow> dict_update r1 kv | _ \<Rightarrow> r1);
          r3 = (if keys_to_select \<noteq> [] then select_keys keys_to_select r2 else r2);
          r4 = (case key_rename_map of
                  None \<Rightarrow> r3
                | Some m \<Rightarrow> if m \<noteq> [] then rename_keys m r3 else r3)
      in AList.update ''signal_id'' (VStr (uuid4 n)) r4)"

text \<open>Line 48, the inner loop over the nested list: one call of \<^verbatim>\<open>uuid4\<close> per element.\<close>

fun flatten_nested ::
  "uuid_gen \<Rightarrow> string \<Rightarrow> string list \<Rightarrow> (string \<times> string) list option \<Rightarrow>
   pydict \<Rightarrow> pyval list \<Rightarrow> nat \<Rightarrow> pydict list \<times> nat" where
  "flatten_nested uuid4 column_name keys_to_select key_rename_map record [] n = ([], n)"
| "flatten_nested uuid4 column_name keys_to_select key_rename_map record (nested # rest) n =
     (let fr = flattened_record uuid4 column_name keys_to_select key_rename_map record nested n;
          (outs, n') = flatten_nested uuid4 column_name keys_to_select key_rename_map
                         record rest (Suc n)
      in (fr # outs, n'))"

text \<open>Line 47: \<^verbatim>\<open>column_name in record and isinstance(record[column_name], list)\<close>.
  The result is the nested list when the test holds, \<open>None\<close> when it does not.\<close>

definition nested_list :: "string \<Rightarrow> pyval \<Rightarrow> exn + pyval list option" where
  "nested_list column_name record =
     (case py_in column_name record of
        Inl e \<Rightarrow> Inl e
      | Inr False \<Rightarrow> Inr None
      | Inr True \<Rightarrow>
          (case py_getitem record column_name of
             Inl e \<Rightarrow> Inl e
           | Inr (VList xs) \<Rightarrow> Inr (Some xs)
           | Inr _ \<Rightarrow> Inr None))"

text \<open>Lines 45 to 66, the outer loop. An exception leaves the loop at once; the
  identifiers drawn before it stay drawn. \<^verbatim>\<open>{**record}\<close> on a value that is not a
  dict is a TypeError.\<close>

fun normalize_records ::
  "uuid_gen \<Rightarrow> string \<Rightarrow> string list \<Rightarrow> (string \<times> string) list option \<Rightarrow>
   pyval list \<Rightarrow> nat \<Rightarrow> (exn + pydict list) \<times> nat" where
  "normalize_records uuid4 column_name keys_to_select key_rename_map [] n = (Inr [], n)"
| "normalize_records uuid4 column_name keys_to_select key_rename_map (record # data) n =
     (case nested_list column_name record of
        Inl e \<Rightarrow> (Inl e, n)
      | Inr None \<Rightarrow> normalize_records uuid4 column_name keys_to_select key_rename_map data n
      | Inr (Some xs) \<Rightarrow>
          (case record of
             VDict kv \<Rightarrow>
               (let (outs, n') = flatten_nested uuid4 column_name keys_to_select
                                   key_rename_map kv xs n
                in case normalize_records uuid4 column_name keys_to_select key_rename_map
                          data n' of
                     (Inl e, n'') \<Rightarrow> (Inl e, n'')
                   | (Inr more, n'') \<Rightarrow> (Inr (outs @ more), n''))
           | _ \<Rightarrow> (if xs = [] then
                      normalize_records uuid4 column_name keys_to_select key_rename_map data n
                    else (Inl TypeError, n))))"

text \<open>\<^verbatim>\<open>normalize_analyst_output\<close>, lines 14 to 68. \<open>data\<close> is any Python value; the
  result is the exception raised or the list returned, with the new identifier count.\<close>

definition normalize_analyst_output ::
  "uuid_gen \<Rightarrow> pyval \<Rightarrow> string option \<Rightarrow> string list \<Rightarrow> (string \<times> string) list option \<Rightarrow>
   nat \<Rightarrow> (exn + pydict list) \<times> nat" where
  "normalize_analyst_output uuid4 data column_name keys_to_select key_rename_map n =
     (case data of
        VList records \<Rightarrow>
          (case determine_column records column_name of
             Inl e \<Rightarrow> (Inl e, n)
           | Inr c \<Rightarrow> normalize_records uuid4 c keys_to_select key_rename_map records n)
      | _ \<Rightarrow> (Inl (ValueError invalid_input_msg), n))"


subsection \<open>Notions of the specification\<close>

text \<open>\<^verbatim>\<open>isinstance(x, list)\<close> and \<^verbatim>\<open>isinstance(x, dict)\<close>.\<close>

definition is_list :: "pyval \<Rightarrow> bool" where
  "is_list x = (case x of VList xs \<Rightarrow> True | _ \<Rightarrow> False)"

definition is_dict :: "pyval \<Rightarrow> bool" where
  "is_dict x = (case x of VDict kv \<Rightarrow> True | _ \<Rightarrow> False)"

text \<open>The values that are sequences of Python: a list, a tuple and a string.\<close>

definition is_sequence :: "pyval \<Rightarrow> bool" where
  "is_sequence x =
     (case x of VList xs \<Rightarrow> True | VTuple xs \<Rightarrow> True | VStr s \<Rightarrow> True | _ \<Rightarrow> False)"

text \<open>A field name occurs in a record: the record is a mapping and has the key.\<close>

definition has_key :: "string \<Rightarrow> pyval \<Rightarrow> bool" where
  "has_key k record = (case record of VDict kv \<Rightarrow> k \<in> set (map fst kv) | _ \<Rightarrow> False)"

text \<open>The code has one exception class, \<^verbatim>\<open>ValueError\<close>, for what the specification calls
  \<^verbatim>\<open>InvalidInputError\<close> and \<^verbatim>\<open>MissingColumnError\<close>; the message tells them apart.
  \<^verbatim>\<open>InvalidInputError\<close> is \<open>ValueError invalid_input_msg\<close> (line 30), and
  \<^verbatim>\<open>MissingColumnError\<close> is a \<^verbatim>\<open>ValueError\<close> with one of the messages of lines 35
  and 43.\<close>

definition missing_column_errors :: "exn set" where
  "missing_column_errors =
     insert (ValueError neither_found_msg) (range (\<lambda>c. ValueError (column_not_found_msg c)))"

text \<open>The length of a record's nested field when the field is present and holds a list,
  and 0 when it is absent or holds anything else (also when the record is not a dict).\<close>

definition nested_length :: "string \<Rightarrow> pyval \<Rightarrow> nat" where
  "nested_length column_name record =
     (case record of
        VDict kv \<Rightarrow> (case map_of kv column_name of Some (VList xs) \<Rightarrow> length xs | _ \<Rightarrow> 0)
      | _ \<Rightarrow> 0)"

text \<open>The name a selected key has after \<^verbatim>\<open>key_rename_map\<close> has been applied (the key
  itself when there is no map or the map has no entry for it).\<close>

definition renamed_key :: "(string \<times> string) list option \<Rightarrow> string \<Rightarrow> string" where
  "renamed_key key_rename_map k =
     (case key_rename_map of None \<Rightarrow> k | Some m \<Rightarrow> rename_key m k)"

text \<open>The value an output record holds under the reserved field name.\<close>

definition signal_id_of :: "pydict \<Rightarrow> pyval option" where
  "signal_id_of out = map_of out ''signal_id''"

subsection \<open>Example calls\<close>

text \<open>The scenario of the specification, with a generator whose identifiers are easy to
  read.\<close>

definition example_uuid4 :: uuid_gen where
  "example_uuid4 i = ''uuid-'' @ replicate i (CHR ''x'')"

definition example_record :: pyval where
  "example_record =
     VDict [(''_id'', VOther ''ObjectId''), (''article_db_id'', VStr ''A1''),
            (''analyst_outputs'',
               VList [VDict [(''category_name'', VStr ''x'')],
                      VDict [(''category_name'', VStr ''y'')]])]"

definition example_outputs :: "pydict list" where
  "example_outputs =
     [[(''article_db_id'', VStr ''A1''), (''category_name'', VStr ''x''),
       (''signal_id'', VStr ''uuid-'')],
      [(''article_db_id'', VStr ''A1''), (''category_name'', VStr ''y''),
       (''signal_id'', VStr ''uuid-x'')]]"

text \<open>A call with the rename map \<^verbatim>\<open>{'pair': 'symbol'}\<close>.\<close>

definition rename_example_record :: pyval where
  "rename_example_record =
     VDict [(''pair'', VStr ''BTC/USD''),
            (''analyst_outputs'', VList [VDict [(''category_name'', VStr ''x'')]])]"

definition rename_example_outputs :: "pydict list" where
  "rename_example_outputs =
     [[(''symbol'', VStr ''BTC/USD''), (''category_name'', VStr ''x''),
       (''signal_id'', VStr ''uuid-'')]]"

text \<open>Records that hold different nested columns.\<close>

definition mixed_example_records :: "pyval list" where
  "mixed_example_records =
     [VDict [(''article_db_id'', VStr ''A1''),
             (''analyst_outputs'', VList [VDict [(''category_name'', VStr ''x'')]])],
      VDict [(''article_db_id'', VStr ''A2''),
             (''analyst_consensus_output'', VList [VDict [(''category_name'', VStr ''y'')]])]]"

section \<open>The pipeline of \<^verbatim>\<open>MongoDBProcessor\<close>\<close>

text \<open>What the methods print, one constructor per \<^verbatim>\<open>print\<close> call of the source.\<close>

datatype message =
    ProcessingExisting
  | InsertedExisting nat
  | InsertManyError exn
  | Listening
  | InsertedDocument
  | InsertionError exn
  | ChangeStreamError exn
  | ConnectionClosed

text \<open>The state the methods change: the documents of the target collection, the number
  of identifiers drawn, the lines printed so far, and whether the client is open.\<close>

record processor =
  target :: "pyval list"
  uuid_count :: nat
  printed :: "message list"
  client_open :: bool

text \<open>What the change stream delivers next: a change notification, or an exception raised
  by the stream itself.\<close>

datatype stream_item = Notification pyval | StreamFailure exn

text \<open>
  The collaborators (pymongo, the server and \<^verbatim>\<open>uuid\<close>) are parameters of the model.
  \<open>source_find\<close> is the outcome of \<^verbatim>\<open>list(self.source_collection.find())\<close>. The two insert
  operations take the documents and the contents of the target collection and give the
  exception raised, if any, and the new contents (so a partial write can be expressed).
  \<open>source_watch\<close> is what the change stream delivers until the loop is left: when the list
  is used up the iteration ends normally.
\<close>

record mongo =
  uuid4_gen :: uuid_gen
  source_find :: "exn + pyval list"
  target_insert_many :: "pyval list \<Rightarrow> pyval list \<Rightarrow> exn option \<times> pyval list"
  target_insert_one :: "pyval \<Rightarrow> pyval list \<Rightarrow> exn option \<times> pyval list"
  source_watch :: "stream_item list"

text \<open>\<^verbatim>\<open>isinstance(e, PyMongoError)\<close> and \<^verbatim>\<open>isinstance(e, ValueError)\<close>, the tests of the
  \<^verbatim>\<open>except\<close> clauses.\<close>

definition is_PyMongoError :: "exn \<Rightarrow> bool" where
  "is_PyMongoError e = (case e of PyMongoError m \<Rightarrow> True | _ \<Rightarrow> False)"

definition is_ValueError :: "exn \<Rightarrow> bool" where
  "is_ValueError e = (case e of ValueError m \<Rightarrow> True | _ \<Rightarrow> False)"

definition print :: "message \<Rightarrow> processor \<Rightarrow> processor" where
  "print m s = s\<lparr>printed := printed s @ [m]\<rparr>"

text \<open>A statement is a function from the state to the exception it raises, if any, and the
  new state. \<^verbatim>\<open>try: body except C as e: handler\<close> and \<^verbatim>\<open>try: body finally: cleanup\<close>:\<close>

type_synonym stmt = "processor \<Rightarrow> exn option \<times> processor"

definition try_except :: "stmt \<Rightarrow> (exn \<Rightarrow> bool) \<Rightarrow> (exn \<Rightarrow> processor \<Rightarrow> processor) \<Rightarrow> stmt" where
  "try_except body caught handler s =
     (case body s of
        (None, s') \<Rightarrow> (None, s')
      | (Some e, s') \<Rightarrow> if caught e then (None, handler e s') else (Some e, s'))"

definition try_finally :: "stmt \<Rightarrow> (processor \<Rightarrow> processor) \<Rightarrow> stmt" where
  "try_finally body cleanup s = (case body s of (raised, s') \<Rightarrow> (raised, cleanup s'))"

text \<open>\<^verbatim>\<open>process_existing_data\<close>, lines 70 to 83. \<^verbatim>\<open>find\<close> and the normalizer are outside
  the \<^verbatim>\<open>try\<close>; only \<^verbatim>\<open>insert_many\<close> is inside it.\<close>

definition insert_existing :: "mongo \<Rightarrow> pydict list \<Rightarrow> stmt" where
  "insert_existing db data s =
     (case target_insert_many db (map VDict data) (target s) of
        (None, t') \<Rightarrow> (None, print (InsertedExisting (length data)) (s\<lparr>target := t'\<rparr>))
      | (Some e, t') \<Rightarrow> (Some e, s\<lparr>target := t'\<rparr>))"

definition process_existing_data :: "mongo \<Rightarrow> stmt" where
  "process_existing_data db s =
     (let s1 = print ProcessingExisting s in
      case source_find db of
        Inl e \<Rightarrow> (Some e, s1)
      | Inr docs \<Rightarrow>
          (case normalize_analyst_output (uuid4_gen db) (VList docs) None
                  default_keys_to_select None (uuid_count s1) of
             (Inl e, n') \<Rightarrow> (Some e, s1\<lparr>uuid_count := n'\<rparr>)
           | (Inr data, n') \<Rightarrow>
               try_except (insert_existing db data) is_PyMongoError
                 (\<lambda>e. print (InsertManyError e)) (s1\<lparr>uuid_count := n'\<rparr>)))"

text \<open>The loop of lines 92 to 99 over what the stream delivers.\<close>

definition insert_new_document :: "mongo \<Rightarrow> pyval \<Rightarrow> stmt" where
  "insert_new_document db new_document s =
     (case target_insert_one db new_document (target s) of
        (None, t') \<Rightarrow> (None, print InsertedDocument (s\<lparr>target := t'\<rparr>))
      | (Some e, t') \<Rightarrow> (Some e, s\<lparr>target := t'\<rparr>))"

fun change_loop :: "mongo \<Rightarrow> stream_item list \<Rightarrow> stmt" where
  "change_loop db [] s = (None, s)"
| "change_loop db (StreamFailure e # stream) s = (Some e, s)"
| "change_loop db (Notification change # stream) s =
     (case py_getitem change ''operationType'' of
        Inl e \<Rightarrow> (Some e, s)
      | Inr operation \<Rightarrow>
          if operation = VStr ''insert'' then
            (case py_getitem change ''fullDocument'' of
               Inl e \<Rightarrow> (Some e, s)
             | Inr new_document \<Rightarrow>
                 (case try_except (insert_new_document db new_document) is_ValueError
                         (\<lambda>e. print (InsertionError e)) s of
                    (None, s') \<Rightarrow> change_loop db stream s'
                  | (Some e, s') \<Rightarrow> (Some e, s')))
          else change_loop db stream s)"

text \<open>\<^verbatim>\<open>start_change_stream\<close>, lines 85 to 104.\<close>

definition close_client :: "processor \<Rightarrow> processor" where
  "close_client s = print ConnectionClosed (s\<lparr>client_open := False\<rparr>)"

definition start_change_stream :: "mongo \<Rightarrow> stmt" where
  "start_change_stream db =
     try_finally
       (try_except (\<lambda>s. change_loop db (source_watch db) (print Listening s))
          is_PyMongoError (\<lambda>e. print (ChangeStreamError e)))
       close_client"

text \<open>\<^verbatim>\<open>run\<close>, lines 106 to 111.\<close>

definition run :: "mongo \<Rightarrow> stmt" where
  "run db s =
     (case process_existing_data db s of
        (Some e, s') \<Rightarrow> (Some e, s')
      | (None, s') \<Rightarrow> start_change_stream db s')"

subsection \<open>Example collaborators\<close>

text \<open>A target collection with a unique index on \<^verbatim>\<open>_id\<close>: inserting a document whose
  \<^verbatim>\<open>_id\<close> is already there raises pymongo's DuplicateKeyError, a PyMongoError.\<close>

definition unique_id_insert_one :: "pyval \<Rightarrow> pyval list \<Rightarrow> exn option \<times> pyval list" where
  "unique_id_insert_one doc t =
     (if has_key ''_id'' doc \<and> py_getitem doc ''_id'' \<in> set (map (\<lambda>d. py_getitem d ''_id'') t)
      then (Some (PyMongoError ''E11000 duplicate key error''), t)
      else (None, t @ [doc]))"

definition insert_notification :: "int \<Rightarrow> pyval" where
  "insert_notification i =
     VDict [(''operationType'', VStr ''insert''),
            (''fullDocument'', VDict [(''_id'', VInt i), (''pair'', VStr ''BTC/USD'')])]"

definition initial_processor :: processor where
  "initial_processor = \<lparr>target = [], uuid_count = 0, printed = [], client_open = True\<rparr>"

definition example_db :: mongo where
  "example_db =
     \<lparr>uuid4_gen = example_uuid4,
      source_find = Inr [example_record],
      target_insert_many = (\<lambda>docs t. (None, t @ docs)),
      target_insert_one = unique_id_insert_one,
      source_watch = [Notification (insert_notification 1), Notification (insert_notification 2)]\<rparr>"

definition refused_db :: mongo where
  "refused_db =
     example_db\<lparr>target_insert_many :=
                  (\<lambda>docs t. (Some (PyMongoError ''connection refused''), t))\<rparr>"

definition already_copied :: processor where
  "already_copied =
     initial_processor\<lparr>target := [VDict [(''_id'', VInt 1), (''pair'', VStr ''BTC/USD'')]]\<rparr>"

definition closing_db :: "stream_item list \<Rightarrow> mongo" where
  "closing_db stream = example_db\<lparr>source_watch := stream\<rparr>"

section \<open>\<^verbatim>\<open>Symbol_finder.determine_exchange\<close>\<close>

text \<open>
  A row of the data frame \<^verbatim>\<open>df_cleaned\<close>, with the columns the code reads. The frame is
  the list of its rows, in order.
\<close>

record tv_row =
  symbol :: string
  currency_code :: string
  exchange :: string
  source_id :: string
  Base :: string

text \<open>
  \<^verbatim>\<open>str.upper()\<close> is a builtin of Python, outside the repository, and its mapping of
  the characters beyond ASCII cannot be written down here (it can lengthen the string).
  It is a parameter \<open>str_upper\<close> of the model. \<open>ascii_upper\<close> is what \<^verbatim>\<open>str.upper()\<close>
  does on ASCII strings: the letters a to z are mapped to A to Z and every other ASCII
  character is left as it is.
\<close>

definition ascii_upper_char :: "char \<Rightarrow> char" where
  "ascii_upper_char c =
     (let n = (of_char c :: nat) in if 97 \<le> n \<and> n \<le> 122 then char_of (n - 32) else c)"

definition ascii_upper :: "string \<Rightarrow> string" where
  "ascii_upper s = map ascii_upper_char s"

text \<open>\<^verbatim>\<open>max(xs, key=key)\<close>: the first element whose key is the largest; a ValueError on an
  empty sequence.\<close>

fun max_from :: "('a \<Rightarrow> 'r::linorder) \<Rightarrow> 'a \<Rightarrow> 'a list \<Rightarrow> 'a" where
  "max_from key best [] = best"
| "max_from key best (x # xs) = max_from key (if key best < key x then x else best) xs"

fun py_max :: "('a \<Rightarrow> 'r::linorder) \<Rightarrow> 'a list \<Rightarrow> exn + 'a" where
  "py_max key [] = Inl (ValueError ''max() arg is an empty sequence'')"
| "py_max key (x # xs) = Inr (max_from key x xs)"

text \<open>\<^verbatim>\<open>create_url\<close>, lines 115 to 118.\<close>

definition create_url :: "(string \<Rightarrow> string) \<Rightarrow> string \<Rightarrow> string \<Rightarrow> string" where
  "create_url str_upper trading_pair exchange_name =
     (let s = ''symbol='' @ str_upper exchange_name @ '':'' @ str_upper trading_pair
      in ''https://s.tradingview.com/widgetembed/?frameElementId=tradingview_abc&'' @ s @
         ''&interval=60&theme=dark'')"

text \<open>\<^verbatim>\<open>generate_trading_urls\<close>, lines 120 to 135: a list of dicts, one per row of the
  filtered frame whose currency code is the quote currency.\<close>

definition generate_trading_urls ::
  "(string \<Rightarrow> string) \<Rightarrow> string \<Rightarrow> string \<Rightarrow> tv_row list \<Rightarrow> pyval" where
  "generate_trading_urls str_upper base_currency quote_currency df_filtered =
     (let df_filtered2 = filter (\<lambda>row. currency_code row = quote_currency) df_filtered
      in VList (map (\<lambda>row. VDict [(''base_currency'', VStr base_currency),
                                  (''quote_currency'', VStr quote_currency),
                                  (''exchange'', VStr (exchange row)),
                                  (''url'', VStr (create_url str_upper (symbol row)
                                                    (source_id row)))])
                  df_filtered2))"

text \<open>
  \<^verbatim>\<open>determine_exchange\<close>, lines 138 to 152. The function calls itself, so the model has
  a bound on the depth of the nested calls as an argument: \<open>None\<close> is the answer when a
  call would go deeper than the bound, \<open>Some\<close> holds what the call returns or raises.
  \<open>ratio a b\<close> stands for \<^verbatim>\<open>difflib.SequenceMatcher(None, a, b).ratio()\<close>, a parameter
  of the model like \<open>str_upper\<close>.
\<close>

fun determine_exchange ::
  "(string \<Rightarrow> string) \<Rightarrow> nat \<Rightarrow> (string \<Rightarrow> string \<Rightarrow> 'r::linorder) \<Rightarrow> tv_row list \<Rightarrow>
   string \<Rightarrow> string option \<Rightarrow> (exn + pyval) option" where
  "determine_exchange str_upper 0 ratio df_cleaned BASE QUOTE = None"
| "determine_exchange str_upper (Suc depth) ratio df_cleaned BASE QUOTE =
     (let BASE = str_upper BASE in
      if BASE \<notin> set (map Base df_cleaned) then
        Some (Inr (VStr ''There is no matches for the base currency!''))
      else
        let df_filtered = filter (\<lambda>row. Base row = BASE) df_cleaned in
        case QUOTE of
          None \<Rightarrow> determine_exchange str_upper depth ratio df_cleaned BASE (Some ''USD'')
        | Some q \<Rightarrow>
            if q \<in> set (map currency_code df_filtered) then
              Some (Inr (generate_trading_urls str_upper BASE q df_filtered))
            else
              (case py_max (ratio q) (map currency_code df_filtered) of
                 Inl e \<Rightarrow> Some (Inl e)
               | Inr most_similar_QUOTE \<Rightarrow>
                   determine_exchange str_upper depth ratio df_cleaned BASE
                     (Some most_similar_QUOTE)))"

subsection \<open>An example frame\<close>

text \<open>A stand-in for the similarity ratio in the examples: the length of the longest
  common prefix.\<close>

fun common_prefix :: "string \<Rightarrow> string \<Rightarrow> nat" where
  "common_prefix (a # as) (b # bs) = (if a = b then Suc (common_prefix as bs) else 0)"
| "common_prefix as bs = 0"

definition example_df :: "tv_row list" where
  "example_df =
     [\<lparr>symbol = ''BTCEUR'', currency_code = ''EUR'', exchange = ''Kraken'',
       source_id = ''kraken'', Base = ''BTC''\<rparr>,
      \<lparr>symbol = ''BTCUSDT'', currency_code = ''USDT'', exchange = ''Binance'',
       source_id = ''binance'', Base = ''BTC''\<rparr>,
      \<lparr>symbol = ''ETHUSD'', currency_code = ''USD'', exchange = ''Coinbase'',
       source_id = ''coinbase'', Base = ''ETH''\<rparr>]"

definition example_urls :: pyval where
  "example_urls =
     VList [VDict [(''base_currency'', VStr ''BTC''), (''quote_currency'', VStr ''USDT''),
                   (''exchange'', VStr ''Binance''),
                   (''url'', VStr (''https://s.tradingview.com/widgetembed/'' @
                      ''?frameElementId=tradingview_abc&symbol=BINANCE:BTCUSDT'' @
                      ''&interval=60&theme=dark''))]]"



section \<open>Properties of the normalizer\<close>

subsection \<open>The loops\<close>

lemma flatten_nested_length [simp]:
  "length (fst (flatten_nested g c ks rn kv xs n)) = length xs"
  by (induction xs arbitrary: n) (simp_all add: case_prod_unfold Let_def)

lemma flatten_nested_count [simp]:
  "snd (flatten_nested g c ks rn kv xs n) = n + length xs"
  by (induction xs arbitrary: n) (simp_all add: case_prod_unfold Let_def)

lemma nested_list_VDict:
  "nested_list c (VDict kv) =
     Inr (case map_of kv c of Some (VList xs) \<Rightarrow> Some xs | _ \<Rightarrow> None)"
proof (cases "map_of kv c")
  case None
  then have "c \<notin> set (map fst kv)" by (simp add: map_of_eq_None_iff)
  with None show ?thesis by (simp add: nested_list_def)
next
  case (Some v)
  then have "c \<in> set (map fst kv)" by (metis map_of_eq_None_iff option.distinct(1) set_map)
  with Some show ?thesis by (cases v) (simp_all add: nested_list_def)
qed

lemma nested_list_Some:
  "nested_list c r = Inr (Some xs) \<Longrightarrow> \<exists>kv. r = VDict kv \<and> map_of kv c = Some (VList xs)"
proof (cases r)
  case (VDict kv)
  assume "nested_list c r = Inr (Some xs)"
  with VDict show ?thesis
    by (auto simp: nested_list_VDict split: option.splits pyval.splits)
qed (simp_all add: nested_list_def split: bool.splits)

lemma nested_list_None:
  "nested_list c r = Inr None \<Longrightarrow> nested_length c r = 0"
proof (cases r)
  case (VDict kv)
  assume "nested_list c r = Inr None"
  with VDict show ?thesis
    by (auto simp: nested_list_VDict nested_length_def split: option.splits pyval.splits)
qed (simp_all add: nested_length_def)

lemma normalize_records_length:
  "normalize_records g c ks rn data n = (Inr outs, n') \<Longrightarrow>
   length outs = sum_list (map (nested_length c) data) \<and> n' = n + length outs"
proof (induction data arbitrary: n outs n')
  case Nil
  then show ?case by auto
next
  case (Cons r data)
  show ?case
  proof (cases "nested_list c r")
    case (Inl e)
    with Cons.prems show ?thesis by simp
  next
    case (Inr res)
    show ?thesis
    proof (cases res)
      case None
      with Inr Cons.prems have "normalize_records g c ks rn data n = (Inr outs, n')" by simp
      from Cons.IH[OF this] None Inr show ?thesis by (simp add: nested_list_None)
    next
      case (Some xs)
      with Inr obtain kv where r: "r = VDict kv" and kv: "map_of kv c = Some (VList xs)"
        using nested_list_Some by blast
      obtain o1 n1 where f: "flatten_nested g c ks rn kv xs n = (o1, n1)" by force
      from Cons.prems Inr Some r f obtain more where
        m: "normalize_records g c ks rn data n1 = (Inr more, n')" and o: "outs = o1 @ more"
        by (auto split: prod.splits sum.splits)
      have l: "length o1 = length xs" "n1 = n + length xs"
        using flatten_nested_length[of g c ks rn kv xs n]
          flatten_nested_count[of g c ks rn kv xs n] f
        by simp_all
      from Cons.IH[OF m] l o r kv show ?thesis
        by (simp add: nested_length_def)
    qed
  qed
qed

lemma example_run:
  "normalize_analyst_output example_uuid4 (VList [example_record]) None
     default_keys_to_select None 0 = (Inr example_outputs, 2)"
  by (simp add: normalize_analyst_output_def detect_column_def nested_list_def
      flattened_record_def dict_update_def select_keys_def default_keys_to_select_def
      example_uuid4_def example_record_def example_outputs_def)

subsection \<open>C1: the number of output records\<close>

text \<open>
  C1. Whenever \<^verbatim>\<open>normalize_analyst_output\<close> accepts its input (it returns a list), the
  input is a list of records, the nested column has been resolved (auto-detected or
  supplied), and the number of output records is the sum over the input records of the
  length of the record's nested field when that field is present and a list, and of 0
  when it is absent or not a list. A record with an empty nested list adds nothing.
\<close>

theorem normalize_output_count:
  "normalize_analyst_output uuid4 data column_name keys_to_select key_rename_map n
     = (Inr outs, n') \<Longrightarrow>
   \<exists>records c. data = VList records \<and> determine_column records column_name = Inr c \<and>
      length outs = sum_list (map (nested_length c) records)"
  by (cases data)
     (auto simp: normalize_analyst_output_def split: sum.splits dest: normalize_records_length)

theorem normalize_output_count_witness:
  "normalize_analyst_output example_uuid4 (VList [example_record]) None
     default_keys_to_select None 0 = (Inr example_outputs, 2) \<and>
   (\<exists>records c. VList [example_record] = VList records \<and>
      determine_column records None = Inr c \<and>
      length example_outputs = sum_list (map (nested_length c) records))"
  using normalize_output_count [OF example_run] example_run by simp

subsection \<open>Keys and identifiers of the output records\<close>

lemma keys_fold_update:
  "fst ` set (fold (\<lambda>(k, v). AList.update (f k) v) d acc) = fst ` set acc \<union> f ` fst ` set d"
  by (induction d arbitrary: acc) (auto simp: dom_update split: prod.splits)

lemma keys_rename_keys: "fst ` set (rename_keys m d) = rename_key m ` fst ` set d"
  by (simp add: rename_keys_def keys_fold_update)

lemma keys_select_keys: "fst ` set (select_keys ks d) = fst ` set d \<inter> set ks"
  by (auto simp: select_keys_def image_iff)

lemma rename_key_Nil [simp]: "rename_key [] k = k"
  by (simp add: rename_key_def)

lemma flattened_record_keys:
  assumes "ks \<noteq> []"
  shows "fst ` set (flattened_record g c ks rn rec nested n)
           \<subseteq> insert ''signal_id'' (renamed_key rn ` set ks)"
proof (cases rn)
  case None
  with assms show ?thesis
    by (auto simp: flattened_record_def Let_def dom_update keys_select_keys renamed_key_def)
next
  case (Some m)
  with assms show ?thesis
    by (cases "m = []")
       (auto simp: flattened_record_def Let_def dom_update keys_select_keys keys_rename_keys
          renamed_key_def)
qed

lemma flattened_record_signal_id [simp]:
  "signal_id_of (flattened_record g c ks rn rec nested n) = Some (VStr (g n))"
  by (simp add: flattened_record_def Let_def signal_id_of_def update_conv')

lemma flatten_nested_set:
  "out \<in> set (fst (flatten_nested g c ks rn rec xs n)) \<Longrightarrow>
   \<exists>nested i. out = flattened_record g c ks rn rec nested i"
  by (induction xs arbitrary: n) (auto simp: case_prod_unfold Let_def)

lemma flatten_nested_ids:
  "map signal_id_of (fst (flatten_nested g c ks rn rec xs n)) =
   map (\<lambda>i. Some (VStr (g i))) [n..<n + length xs]"
proof (induction xs arbitrary: n)
  case Nil
  then show ?case by simp
next
  case (Cons x xs)
  have "n < n + length (x # xs)" by simp
  then have "[n..<n + length (x # xs)] = n # [Suc n..<n + length (x # xs)]"
    by (rule upt_conv_Cons)
  then have "[n..<n + length (x # xs)] = n # [Suc n..<Suc n + length xs]"
    by simp
  with Cons.IH[of "Suc n"] show ?case
    by (simp add: case_prod_unfold Let_def del: upt_Suc)
qed

lemma normalize_records_set:
  "normalize_records g c ks rn data n = (Inr outs, n') \<Longrightarrow> out \<in> set outs \<Longrightarrow>
   \<exists>rec nested i. out = flattened_record g c ks rn rec nested i"
proof (induction data arbitrary: n outs n')
  case Nil
  then show ?case by simp
next
  case (Cons r data)
  show ?case
  proof (cases "nested_list c r")
    case (Inl e)
    with Cons.prems show ?thesis by simp
  next
    case (Inr res)
    show ?thesis
    proof (cases res)
      case None
      with Inr Cons.prems have "normalize_records g c ks rn data n = (Inr outs, n')" by simp
      from Cons.IH[OF this Cons.prems(2)] show ?thesis .
    next
      case (Some xs)
      with Inr obtain kv where r: "r = VDict kv"
        using nested_list_Some by blast
      obtain o1 n1 where f: "flatten_nested g c ks rn kv xs n = (o1, n1)" by force
      from Cons.prems(1) Inr Some r f obtain more where
        m: "normalize_records g c ks rn data n1 = (Inr more, n')" and o: "outs = o1 @ more"
        by (auto split: prod.splits sum.splits)
      from o Cons.prems(2) consider "out \<in> set o1" | "out \<in> set more" by auto
      then show ?thesis
      proof cases
        case 1
        with f flatten_nested_set[of out g c ks rn kv xs n] show ?thesis by auto
      next
        case 2
        from Cons.IH[OF m 2] show ?thesis .
      qed
    qed
  qed
qed

lemma normalize_records_ids:
  "normalize_records g c ks rn data n = (Inr outs, n') \<Longrightarrow>
   map signal_id_of outs = map (\<lambda>i. Some (VStr (g i))) [n..<n'] \<and> n \<le> n'"
proof (induction data arbitrary: n outs n')
  case Nil
  then show ?case by auto
next
  case (Cons r data)
  show ?case
  proof (cases "nested_list c r")
    case (Inl e)
    with Cons.prems show ?thesis by simp
  next
    case (Inr res)
    show ?thesis
    proof (cases res)
      case None
      with Inr Cons.prems have "normalize_records g c ks rn data n = (Inr outs, n')" by simp
      from Cons.IH[OF this] show ?thesis .
    next
      case (Some xs)
      with Inr obtain kv where r: "r = VDict kv"
        using nested_list_Some by blast
      obtain o1 n1 where f: "flatten_nested g c ks rn kv xs n = (o1, n1)" by force
      from Cons.prems(1) Inr Some r f obtain more where
        m: "normalize_records g c ks rn data n1 = (Inr more, n')" and o: "outs = o1 @ more"
        by (auto split: prod.splits sum.splits)
      have n1: "n1 = n + length xs"
        using flatten_nested_count[of g c ks rn kv xs n] f by simp
      have i1: "map signal_id_of o1 = map (\<lambda>i. Some (VStr (g i))) [n..<n1]"
        using flatten_nested_ids[of g c ks rn kv xs n] f n1 by simp
      from Cons.IH[OF m] have i2: "map signal_id_of more = map (\<lambda>i. Some (VStr (g i))) [n1..<n']"
        and le: "n1 \<le> n'" by simp_all
      have "[n..<n'] = [n..<n1] @ [n1..<n']"
        using upt_add_eq_append[of n n1 "n' - n1"] n1 le by simp
      with i1 i2 o n1 le show ?thesis by simp
    qed
  qed
qed

lemma rename_example_run:
  "normalize_analyst_output example_uuid4 (VList [rename_example_record]) None
     default_keys_to_select (Some [(''pair'', ''symbol'')]) 0 = (Inr rename_example_outputs, 1)"
  by (simp add: normalize_analyst_output_def detect_column_def nested_list_def
      flattened_record_def dict_update_def select_keys_def default_keys_to_select_def
      rename_keys_def rename_key_def
      example_uuid4_def rename_example_record_def rename_example_outputs_def)

subsection \<open>C2: the keys of an output record\<close>

text \<open>
  C2, as stated: with a non-empty \<^verbatim>\<open>keys_to_select\<close> and any \<^verbatim>\<open>key_rename_map\<close>, every
  key of every output record is a member of \<^verbatim>\<open>keys_to_select\<close> or \<^verbatim>\<open>signal_id\<close>.
  The code renames after it selects, so this fails: with the default keys and the map
  \<^verbatim>\<open>{'pair': 'symbol'}\<close> the output record has the key \<^verbatim>\<open>symbol\<close>.
\<close>

theorem selected_keys_only_counterexample:
  "default_keys_to_select \<noteq> [] \<and>
   normalize_analyst_output example_uuid4 (VList [rename_example_record]) None
     default_keys_to_select (Some [(''pair'', ''symbol'')]) 0 = (Inr rename_example_outputs, 1) \<and>
   ''symbol'' \<in> fst ` set (hd rename_example_outputs) \<and>
   ''symbol'' \<notin> set default_keys_to_select \<and> ''symbol'' \<noteq> ''signal_id''"
  using rename_example_run
  by (simp add: default_keys_to_select_def rename_example_outputs_def)

text \<open>
  C2, amended: with a non-empty \<^verbatim>\<open>keys_to_select\<close>, every key of every output record
  is \<^verbatim>\<open>signal_id\<close> or the name that \<^verbatim>\<open>key_rename_map\<close> gives to a member of
  \<^verbatim>\<open>keys_to_select\<close> (the member itself when there is no map, or no entry for it).
\<close>

theorem selected_keys_renamed:
  assumes "keys_to_select \<noteq> []"
    and "normalize_analyst_output uuid4 data column_name keys_to_select key_rename_map n
           = (Inr outs, n')"
    and "out \<in> set outs"
  shows "fst ` set out \<subseteq> insert ''signal_id'' (renamed_key key_rename_map ` set keys_to_select)"
proof -
  from assms(2) obtain records c where
    "normalize_records uuid4 c keys_to_select key_rename_map records n = (Inr outs, n')"
    by (cases data) (auto simp: normalize_analyst_output_def split: sum.splits)
  from normalize_records_set[OF this assms(3)] obtain r nested i where
    "out = flattened_record uuid4 c keys_to_select key_rename_map r nested i" by blast
  with flattened_record_keys[OF assms(1)] show ?thesis by simp
qed

theorem selected_keys_renamed_witness:
  "default_keys_to_select \<noteq> [] \<and>
   normalize_analyst_output example_uuid4 (VList [rename_example_record]) None
     default_keys_to_select (Some [(''pair'', ''symbol'')]) 0 = (Inr rename_example_outputs, 1) \<and>
   hd rename_example_outputs \<in> set rename_example_outputs \<and>
   fst ` set (hd rename_example_outputs)
     \<subseteq> insert ''signal_id''
         (renamed_key (Some [(''pair'', ''symbol'')]) ` set default_keys_to_select)"
proof -
  have k: "default_keys_to_select \<noteq> []" by (simp add: default_keys_to_select_def)
  have m: "hd rename_example_outputs \<in> set rename_example_outputs"
    by (simp add: rename_example_outputs_def)
  from selected_keys_renamed [OF k rename_example_run m] k m rename_example_run
  show ?thesis by simp
qed

subsection \<open>C4: the signal identifier\<close>

lemma example_uuid4_inj: "inj example_uuid4"
proof (rule injI)
  fix i j assume "example_uuid4 i = example_uuid4 j"
  then have "length (replicate i (CHR ''x'')) = length (replicate j (CHR ''x''))"
    by (simp add: example_uuid4_def)
  then show "i = j" by simp
qed

text \<open>
  C4. In every call that returns, each output record holds under \<^verbatim>\<open>signal_id\<close> the
  identifier drawn for it from the generator: the \<open>i\<close>-th output record holds the
  \<open>i\<close>-th identifier drawn in the call, one draw per record, whatever the input values,
  \<^verbatim>\<open>keys_to_select\<close> and \<^verbatim>\<open>key_rename_map\<close> are (it is written last, so selection cannot
  drop it and a renamed source key cannot replace it). When the identifiers the generator
  hands out during the call are pairwise distinct, so are those of the output records.
\<close>

theorem signal_id_fresh:
  assumes "normalize_analyst_output uuid4 data column_name keys_to_select key_rename_map n
             = (Inr outs, n')"
  shows "n' = n + length outs \<and>
         map signal_id_of outs = map (\<lambda>i. Some (VStr (uuid4 i))) [n..<n'] \<and>
         (inj_on uuid4 {n..<n'} \<longrightarrow> distinct (map signal_id_of outs))"
proof -
  from assms obtain records c where
    r: "normalize_records uuid4 c keys_to_select key_rename_map records n = (Inr outs, n')"
    by (cases data) (auto simp: normalize_analyst_output_def split: sum.splits)
  from normalize_records_length[OF r] have len: "n' = n + length outs" by simp
  from normalize_records_ids[OF r]
  have ids: "map signal_id_of outs = map (\<lambda>i. Some (VStr (uuid4 i))) [n..<n']" by simp
  have "distinct (map signal_id_of outs)" if inj: "inj_on uuid4 {n..<n'}"
  proof -
    have "inj_on (\<lambda>i. Some (VStr (uuid4 i))) (set [n..<n'])"
      using inj by (auto simp: inj_on_def)
    then show ?thesis unfolding ids by (simp add: distinct_map)
  qed
  with len ids show ?thesis by blast
qed

theorem signal_id_fresh_witness:
  "normalize_analyst_output example_uuid4 (VList [example_record]) None
     default_keys_to_select None 0 = (Inr example_outputs, 2) \<and>
   map signal_id_of example_outputs = [Some (VStr ''uuid-''), Some (VStr ''uuid-x'')] \<and>
   distinct (map signal_id_of example_outputs)"
proof -
  have "inj_on example_uuid4 {0..<2}"
    using example_uuid4_inj by (rule inj_on_subset) simp
  with signal_id_fresh [OF example_run]
  have d: "distinct (map signal_id_of example_outputs)" by blast
  have "map signal_id_of example_outputs = [Some (VStr ''uuid-''), Some (VStr ''uuid-x'')]"
    by (simp add: example_outputs_def signal_id_of_def)
  with d example_run show ?thesis by blast
qed

subsection \<open>Exceptions of the normalizer\<close>

lemma py_in_error: "py_in k r = Inl e \<Longrightarrow> e = TypeError"
  by (cases r) simp_all

lemma py_any_in_error: "py_any_in k data = Inl e \<Longrightarrow> e = TypeError"
  by (induction data) (auto split: sum.splits bool.splits dest: py_in_error)

lemma py_any_in_dicts:
  "\<forall>r\<in>set data. is_dict r \<Longrightarrow> py_any_in k data = Inr (\<exists>r\<in>set data. has_key k r)"
proof (induction data)
  case Nil
  then show ?case by simp
next
  case (Cons r data)
  then obtain kv where "r = VDict kv" by (cases r) (simp_all add: is_dict_def)
  with Cons show ?case by (cases "k \<in> fst ` set kv") (simp_all add: has_key_def)
qed

lemma nested_list_error: "nested_list c r = Inl e \<Longrightarrow> e = TypeError"
proof (cases r)
  case (VDict kv)
  assume "nested_list c r = Inl e"
  with VDict show ?thesis by (simp add: nested_list_VDict)
qed (auto simp: nested_list_def split: bool.splits)

lemma normalize_records_error:
  "normalize_records g c ks rn data n = (Inl e, n') \<Longrightarrow> e = TypeError"
proof (induction data arbitrary: n)
  case Nil
  then show ?case by simp
next
  case (Cons r data)
  show ?case
  proof (cases "nested_list c r")
    case (Inl e')
    with Cons.prems nested_list_error[OF Inl] show ?thesis by simp
  next
    case (Inr res)
    show ?thesis
    proof (cases res)
      case None
      with Inr Cons show ?thesis by simp
    next
      case (Some xs)
      with Inr obtain kv where r: "r = VDict kv"
        using nested_list_Some by blast
      obtain o1 n1 where f: "flatten_nested g c ks rn kv xs n = (o1, n1)" by force
      from Cons.prems Inr Some r f have
        "normalize_records g c ks rn data n1 = (Inl e, n')"
        by (auto split: prod.splits sum.splits)
      then show ?thesis by (rule Cons.IH)
    qed
  qed
qed

lemma normalize_records_dicts:
  "\<forall>r\<in>set data. is_dict r \<Longrightarrow> \<exists>outs n'. normalize_records g c ks rn data n = (Inr outs, n')"
proof (induction data arbitrary: n)
  case Nil
  then show ?case by simp
next
  case (Cons r data)
  then obtain kv where r: "r = VDict kv" by (cases r) (simp_all add: is_dict_def)
  from Cons.prems have d: "\<forall>r\<in>set data. is_dict r" by simp
  show ?case
  proof (cases "case map_of kv c of Some (VList xs) \<Rightarrow> Some xs | _ \<Rightarrow> None")
    case None
    with r Cons.IH[OF d, of n] show ?thesis by (simp add: nested_list_VDict)
  next
    case (Some xs)
    obtain o1 n1 where f: "flatten_nested g c ks rn kv xs n = (o1, n1)" by force
    from Cons.IH[OF d, of n1] obtain more n' where
      "normalize_records g c ks rn data n1 = (Inr more, n')" by blast
    with Some r f show ?thesis by (simp add: nested_list_VDict)
  qed
qed

lemma invalid_input_msg_neq:
  "invalid_input_msg \<noteq> neither_found_msg" "invalid_input_msg \<noteq> column_not_found_msg c"
  by (simp_all add: invalid_input_msg_def neither_found_msg_def column_not_found_msg_def)

lemma detect_column_error:
  "detect_column data = Inl e \<Longrightarrow> e = TypeError \<or> e = ValueError neither_found_msg"
  by (auto simp: detect_column_def split: sum.splits bool.splits dest: py_any_in_error)

lemma determine_column_error:
  "determine_column data column_name = Inl e \<Longrightarrow> e = TypeError \<or> e \<in> missing_column_errors"
  by (cases column_name)
     (auto simp: missing_column_errors_def split: sum.splits bool.splits if_splits
        dest: py_any_in_error detect_column_error)

lemma invalid_input_not_missing_column: "ValueError invalid_input_msg \<notin> missing_column_errors"
  using invalid_input_msg_neq by (auto simp: missing_column_errors_def)

subsection \<open>C7: the input that is not a list\<close>

text \<open>
  C7, as stated: the invalid-input error is raised exactly when the argument is not a
  sequence, so no sequence raises it. Line 29 tests \<^verbatim>\<open>isinstance(data, list)\<close>: a tuple
  of records is a sequence, and the call on it raises the invalid-input error.
\<close>

theorem invalid_input_counterexample:
  "is_sequence (VTuple [example_record]) \<and>
   normalize_analyst_output example_uuid4 (VTuple [example_record]) None
     default_keys_to_select None 0 = (Inl (ValueError invalid_input_msg), 0)"
  by (simp add: is_sequence_def normalize_analyst_output_def)

text \<open>
  C7, amended: \<^verbatim>\<open>normalize_analyst_output\<close> raises the invalid-input error exactly when
  its \<^verbatim>\<open>data\<close> argument is not a list. On every value that is not a list, a tuple or a
  string included, it raises it at once, before any identifier is drawn or any record is
  produced, and on a list it never raises it.
\<close>

theorem invalid_input_error_iff:
  "(\<not> is_list data \<longrightarrow>
      normalize_analyst_output uuid4 data column_name keys_to_select key_rename_map n
        = (Inl (ValueError invalid_input_msg), n)) \<and>
   (is_list data \<longrightarrow>
      fst (normalize_analyst_output uuid4 data column_name keys_to_select key_rename_map n)
        \<noteq> Inl (ValueError invalid_input_msg))"
proof (cases data)
  case (VList records)
  have "fst (normalize_analyst_output uuid4 (VList records) column_name keys_to_select
               key_rename_map n) \<noteq> Inl (ValueError invalid_input_msg)"
  proof (cases "determine_column records column_name")
    case (Inl e)
    with determine_column_error[OF Inl] invalid_input_not_missing_column show ?thesis
      by (auto simp: normalize_analyst_output_def)
  next
    case (Inr c)
    show ?thesis
    proof
      assume a: "fst (normalize_analyst_output uuid4 (VList records) column_name keys_to_select
               key_rename_map n) = Inl (ValueError invalid_input_msg)"
      obtain res n' where
        r: "normalize_records uuid4 c keys_to_select key_rename_map records n = (res, n')"
        by force
      with a Inr have "res = Inl (ValueError invalid_input_msg)"
        by (simp add: normalize_analyst_output_def)
      with r normalize_records_error show False by blast
    qed
  qed
  with VList show ?thesis by (simp add: is_list_def)
qed (simp_all add: is_list_def normalize_analyst_output_def)

theorem invalid_input_error_iff_witness:
  "\<not> is_list (VInt 5) \<and>
   normalize_analyst_output example_uuid4 (VInt 5) None default_keys_to_select None 0
     = (Inl (ValueError invalid_input_msg), 0) \<and>
   is_list (VList [example_record]) \<and>
   fst (normalize_analyst_output example_uuid4 (VList [example_record]) None
          default_keys_to_select None 0) \<noteq> Inl (ValueError invalid_input_msg)"
  using invalid_input_error_iff [of "VInt 5" example_uuid4 None default_keys_to_select None 0]
    invalid_input_error_iff [of "VList [example_record]" example_uuid4 None
      default_keys_to_select None 0]
  by (simp add: is_list_def)

subsection \<open>C8: the column that cannot be resolved\<close>

text \<open>
  C8, as stated: the missing-column error is raised exactly when no column name is
  supplied and neither recognized name occurs in any record, or when a supplied column
  name occurs in no record. \<^verbatim>\<open>if column_name:\<close> is a truth test, so a supplied empty
  name is auto-detected like \<^verbatim>\<open>None\<close>: the empty name occurs in no record of the input
  below, and the call returns the empty list.
\<close>

theorem missing_column_counterexample:
  "normalize_analyst_output example_uuid4 (VList [VDict [(''analyst_outputs'', VList [])]])
     (Some []) default_keys_to_select None 0 = (Inr [], 0) \<and>
   \<not> has_key [] (VDict [(''analyst_outputs'', VList [])])"
  by (simp add: normalize_analyst_output_def detect_column_def nested_list_def has_key_def)

lemma determine_column_dicts:
  assumes "\<forall>r\<in>set records. is_dict r"
  shows "determine_column records column_name =
     (if column_name = None \<or> column_name = Some [] then
        (if \<exists>r\<in>set records. has_key ''analyst_consensus_output'' r
         then Inr ''analyst_consensus_output''
         else if \<exists>r\<in>set records. has_key ''analyst_outputs'' r
         then Inr ''analyst_outputs''
         else Inl (ValueError neither_found_msg))
      else if \<exists>r\<in>set records. has_key (the column_name) r then Inr (the column_name)
      else Inl (ValueError (column_not_found_msg (the column_name))))"
  by (cases column_name) (simp_all add: detect_column_def py_any_in_dicts[OF assms])

text \<open>
  C8, amended: on a list of dict records the missing-column error is raised exactly when
  the column name is \<^verbatim>\<open>None\<close> or empty and neither recognized name occurs in any record,
  or the column name is a non-empty string that occurs in no record.
\<close>

theorem missing_column_error_iff:
  assumes "\<forall>r\<in>set records. is_dict r"
  shows "fst (normalize_analyst_output uuid4 (VList records) column_name keys_to_select
                key_rename_map n) \<in> Inl ` missing_column_errors
         \<longleftrightarrow>
         (if column_name = None \<or> column_name = Some []
          then \<forall>r\<in>set records. \<not> has_key ''analyst_consensus_output'' r \<and>
                               \<not> has_key ''analyst_outputs'' r
          else \<forall>r\<in>set records. \<not> has_key (the column_name) r)"
proof -
  have ok: "fst (normalize_records uuid4 c keys_to_select key_rename_map records n)
              \<notin> Inl ` missing_column_errors" for c
    using normalize_records_dicts[OF assms, of uuid4 c keys_to_select key_rename_map n]
    by auto
  show ?thesis
    using ok
    by (auto simp: normalize_analyst_output_def determine_column_dicts[OF assms]
        missing_column_errors_def)
qed

theorem missing_column_error_iff_witness:
  "is_dict example_record \<and> \<not> has_key ''analyst_output'' example_record \<and>
   fst (normalize_analyst_output example_uuid4 (VList [example_record]) (Some ''analyst_output'')
          default_keys_to_select None 0) \<in> Inl ` missing_column_errors"
proof -
  have d: "\<forall>r\<in>set [example_record]. is_dict r"
    by (simp add: example_record_def is_dict_def)
  have k: "\<forall>r\<in>set [example_record]. \<not> has_key ''analyst_output'' r"
    by (simp add: example_record_def has_key_def)
  from missing_column_error_iff [OF d, of example_uuid4 "Some ''analyst_output''"
      default_keys_to_select None 0] d k
  show ?thesis by simp
qed

subsection \<open>C9: auto-detection prefers \<^verbatim>\<open>analyst_consensus_output\<close>\<close>

lemma nested_list_no_key: "\<not> has_key c r \<Longrightarrow> is_dict r \<Longrightarrow> nested_list c r = Inr None"
  by (cases r) (simp_all add: has_key_def is_dict_def nested_list_def)

lemma normalize_records_filter:
  "\<forall>r\<in>set data. is_dict r \<Longrightarrow>
   normalize_records g c ks rn (filter (has_key c) data) n = normalize_records g c ks rn data n"
proof (induction data arbitrary: n)
  case Nil
  then show ?case by simp
next
  case (Cons r data)
  then have d: "\<forall>r\<in>set data. is_dict r" and r: "is_dict r" by simp_all
  show ?case
  proof (cases "has_key c r")
    case False
    with r Cons.IH[OF d] show ?thesis by (simp add: nested_list_no_key)
  next
    case True
    with Cons.IH[OF d] show ?thesis
      by (simp split: sum.splits option.splits pyval.splits prod.splits)
  qed
qed

text \<open>
  C9. With no column name supplied and a list of dict records of which at least one has
  the key \<^verbatim>\<open>analyst_consensus_output\<close>, that column is the one detected, whatever other
  records hold and whatever the state of the identifier generator is (the detected column
  is a function of the records alone). A record without that key yields no output record,
  and the whole call returns what it returns on the records that have the key.
\<close>

theorem consensus_column_preferred:
  assumes "\<forall>r\<in>set records. is_dict r"
    and "\<exists>r\<in>set records. has_key ''analyst_consensus_output'' r"
  shows "determine_column records None = Inr ''analyst_consensus_output'' \<and>
         (\<forall>r\<in>set records. \<not> has_key ''analyst_consensus_output'' r \<longrightarrow>
            (\<forall>m. normalize_records uuid4 ''analyst_consensus_output'' keys_to_select
                   key_rename_map [r] m = (Inr [], m))) \<and>
         normalize_analyst_output uuid4 (VList records) None keys_to_select key_rename_map n =
         normalize_analyst_output uuid4
           (VList (filter (has_key ''analyst_consensus_output'') records)) None
           keys_to_select key_rename_map n"
proof -
  let ?c = "''analyst_consensus_output''"
  have c: "determine_column records None = Inr ?c"
    using assms by (simp add: determine_column_dicts del: determine_column.simps)
  have f: "\<forall>r\<in>set (filter (has_key ?c) records). is_dict r"
    "\<exists>r\<in>set (filter (has_key ?c) records). has_key ?c r"
    using assms by auto
  have c': "determine_column (filter (has_key ?c) records) None = Inr ?c"
    using f by (simp add: determine_column_dicts del: determine_column.simps)
  have z: "normalize_records uuid4 ?c keys_to_select key_rename_map [r] m = (Inr [], m)"
    if "r \<in> set records" "\<not> has_key ?c r" for r m
    using that assms(1) by (simp add: nested_list_no_key)
  from c c' z normalize_records_filter[OF assms(1), of uuid4 ?c keys_to_select key_rename_map n]
  show ?thesis
    by (simp add: normalize_analyst_output_def del: determine_column.simps)
qed

theorem consensus_column_preferred_witness:
  "list_all is_dict mixed_example_records \<and>
   list_ex (has_key ''analyst_consensus_output'') mixed_example_records \<and>
   determine_column mixed_example_records None = Inr ''analyst_consensus_output'' \<and>
   normalize_analyst_output example_uuid4 (VList mixed_example_records) None
     default_keys_to_select None 0 =
   normalize_analyst_output example_uuid4 (VList [mixed_example_records ! 1]) None
     default_keys_to_select None 0"
proof -
  have d: "\<forall>r\<in>set mixed_example_records. is_dict r"
    by (simp add: mixed_example_records_def is_dict_def)
  have k: "\<exists>r\<in>set mixed_example_records. has_key ''analyst_consensus_output'' r"
    by (simp add: mixed_example_records_def has_key_def)
  have f: "filter (has_key ''analyst_consensus_output'') mixed_example_records
             = [mixed_example_records ! 1]"
    by (simp add: mixed_example_records_def has_key_def)
  from consensus_column_preferred [OF d k, of example_uuid4 default_keys_to_select None 0] d k f
  show ?thesis by (simp add: list_all_iff list_ex_iff)
qed

section \<open>Properties of the pipeline\<close>

lemmas pipeline_defs =
  start_change_stream_def try_finally_def try_except_def close_client_def print_def
  insert_new_document_def is_ValueError_def is_PyMongoError_def
  process_existing_data_def insert_existing_def run_def


subsection \<open>C3: an insert that fails in the tailer\<close>

text \<open>
  C3 says that a failing \<^verbatim>\<open>insert_one\<close> is caught and logged and that the loop goes on
  with the next notification. The inner handler of line 98 is \<^verbatim>\<open>except ValueError\<close>, and
  a storage failure of pymongo is a PyMongoError: below the target already holds the
  document of the first notification, its insert raises DuplicateKeyError, the outer
  handler of line 100 takes it, and the second notification is never processed.
\<close>

theorem insert_failure_ends_tailer:
  "start_change_stream example_db already_copied =
   (None, \<lparr>target = [VDict [(''_id'', VInt 1), (''pair'', VStr ''BTC/USD'')]],
           uuid_count = 0,
           printed = [Listening, ChangeStreamError (PyMongoError ''E11000 duplicate key error''),
                      ConnectionClosed],
           client_open = False\<rparr>)"
  by (simp add: pipeline_defs example_db_def already_copied_def initial_processor_def
      insert_notification_def unique_id_insert_one_def has_key_def)

subsection \<open>C5: a backfill whose bulk insert fails\<close>

text \<open>
  C5, as stated: when \<^verbatim>\<open>insert_many\<close> fails with a storage error the tailer is never
  started. Line 82 catches the PyMongoError and \<^verbatim>\<open>process_existing_data\<close> returns
  normally, so \<^verbatim>\<open>run\<close> goes on to \<^verbatim>\<open>start_change_stream\<close>: below, the tailer listens and
  copies both documents after the failed bulk insert.
\<close>

theorem backfill_failure_counterexample:
  "target_insert_many refused_db (map VDict example_outputs) (target initial_processor) =
     (Some (PyMongoError ''connection refused''), []) \<and>
   run refused_db initial_processor =
   (None, \<lparr>target = [VDict [(''_id'', VInt 1), (''pair'', VStr ''BTC/USD'')],
                     VDict [(''_id'', VInt 2), (''pair'', VStr ''BTC/USD'')]],
           uuid_count = 2,
           printed = [ProcessingExisting, InsertManyError (PyMongoError ''connection refused''),
                      Listening, InsertedDocument, InsertedDocument, ConnectionClosed],
           client_open = False\<rparr>)"
  using example_run
  by (simp add: pipeline_defs refused_db_def example_db_def initial_processor_def
      insert_notification_def unique_id_insert_one_def has_key_def)

lemma process_existing_data_raises:
  assumes "process_existing_data db s = (Some e, s')"
  shows "printed s' = printed s @ [ProcessingExisting] \<and> client_open s' = client_open s"
  using assms
  by (auto simp: process_existing_data_def Let_def try_except_def insert_existing_def print_def
      split: sum.splits prod.splits option.splits if_splits)

lemma change_loop_appends:
  "\<exists>rest. printed (snd (change_loop db stream s)) = printed s @ rest"
proof (induction db stream s rule: change_loop.induct)
  case (1 db s)
  then show ?case by simp
next
  case (2 db e stream s)
  then show ?case by simp
next
  case (3 db change stream s)
  show ?case
  proof (cases "py_getitem change ''operationType''")
    case (Inl e)
    then show ?thesis by simp
  next
    case op: (Inr operation)
    show ?thesis
    proof (cases "operation = VStr ''insert''")
      case False
      with op "3.IH"(2) show ?thesis by simp
    next
      case True
      show ?thesis
      proof (cases "py_getitem change ''fullDocument''")
        case (Inl e)
        with op True show ?thesis by simp
      next
        case doc: (Inr new_document)
        obtain r s1 where
          t: "try_except (insert_new_document db new_document) is_ValueError
                (\<lambda>e. print (InsertionError e)) s = (r, s1)"
          by force
        then have p1: "\<exists>rest. printed s1 = printed s @ rest"
          by (auto simp: try_except_def insert_new_document_def print_def
              split: prod.splits option.splits if_splits)
        show ?thesis
        proof (cases r)
          case None
          from "3.IH"(1)[OF op True doc t[symmetric] None] p1 op True doc t None
          show ?thesis by auto
        next
          case (Some e)
          with p1 op True doc t show ?thesis by simp
        qed
      qed
    qed
  qed
qed

lemma start_change_stream_printed:
  "\<exists>rest. printed (snd (start_change_stream db s)) =
          printed s @ Listening # rest @ [ConnectionClosed]"
proof -
  obtain r s1 where l: "change_loop db (source_watch db) (print Listening s) = (r, s1)"
    by force
  from change_loop_appends[of db "source_watch db" "print Listening s"] l
  obtain rest where "printed s1 = printed s @ Listening # rest"
    by (auto simp: print_def)
  with l show ?thesis
    by (cases r)
       (auto simp: start_change_stream_def try_finally_def try_except_def close_client_def
          print_def)
qed

text \<open>
  C5, amended: when the bulk insert of the backfill fails with a PyMongoError, the failure
  is caught and printed and the driver does proceed to the tail phase, which starts from
  the state the backfill left. The tailer is not started when an exception escapes
  \<^verbatim>\<open>process_existing_data\<close>: then \<^verbatim>\<open>run\<close> ends with that exception, having printed
  only the first line of the backfill and with the client as it was.
\<close>

theorem backfill_failure_then_tail:
  "(source_find db = Inr docs \<and>
    normalize_analyst_output (uuid4_gen db) (VList docs) None default_keys_to_select None
      (uuid_count s) = (Inr data, n') \<and>
    target_insert_many db (map VDict data) (target s) = (Some (PyMongoError m), t') \<longrightarrow>
    run db s =
      start_change_stream db
        (s\<lparr>target := t', uuid_count := n',
           printed := printed s @ [ProcessingExisting, InsertManyError (PyMongoError m)]\<rparr>) \<and>
    (\<exists>rest. printed (snd (run db s)) =
       printed s @ [ProcessingExisting, InsertManyError (PyMongoError m), Listening] @ rest)) \<and>
   (process_existing_data db s = (Some e, s') \<longrightarrow>
    run db s = (Some e, s') \<and> printed s' = printed s @ [ProcessingExisting] \<and>
    client_open s' = client_open s)"
proof -
  let ?s1 = "s\<lparr>target := t', uuid_count := n',
           printed := printed s @ [ProcessingExisting, InsertManyError (PyMongoError m)]\<rparr>"
  have 1: "run db s = start_change_stream db ?s1 \<and>
      (\<exists>rest. printed (snd (run db s)) =
         printed s @ [ProcessingExisting, InsertManyError (PyMongoError m), Listening] @ rest)"
    if a: "source_find db = Inr docs \<and>
      normalize_analyst_output (uuid4_gen db) (VList docs) None default_keys_to_select None
        (uuid_count s) = (Inr data, n') \<and>
      target_insert_many db (map VDict data) (target s) = (Some (PyMongoError m), t')"
  proof -
    from a have "process_existing_data db s = (None, ?s1)"
      by (simp add: process_existing_data_def Let_def try_except_def insert_existing_def
          print_def is_PyMongoError_def)
    then have r: "run db s = start_change_stream db ?s1"
      by (simp add: run_def)
    from start_change_stream_printed[of db ?s1] obtain rest where
      "printed (snd (start_change_stream db ?s1)) =
         printed ?s1 @ Listening # rest @ [ConnectionClosed]" by blast
    with r show ?thesis by simp
  qed
  have 2: "run db s = (Some e, s') \<and> printed s' = printed s @ [ProcessingExisting] \<and>
      client_open s' = client_open s"
    if b: "process_existing_data db s = (Some e, s')"
    using b process_existing_data_raises[OF b] by (simp add: run_def)
  from 1 2 show ?thesis by blast
qed

lemma refused_backfill:
  "source_find refused_db = Inr [example_record] \<and>
   normalize_analyst_output (uuid4_gen refused_db) (VList [example_record]) None
     default_keys_to_select None (uuid_count initial_processor) = (Inr example_outputs, 2) \<and>
   target_insert_many refused_db (map VDict example_outputs) (target initial_processor) =
     (Some (PyMongoError ''connection refused''), [])"
  using example_run
  by (simp add: refused_db_def example_db_def initial_processor_def)

theorem backfill_failure_then_tail_witness:
  "source_find refused_db = Inr [example_record] \<and>
   target_insert_many refused_db (map VDict example_outputs) (target initial_processor) =
     (Some (PyMongoError ''connection refused''), []) \<and>
   run refused_db initial_processor =
     start_change_stream refused_db
       (initial_processor\<lparr>target := [], uuid_count := 2,
          printed := printed initial_processor @
            [ProcessingExisting, InsertManyError (PyMongoError ''connection refused'')]\<rparr>)"
  using backfill_failure_then_tail [of refused_db "[example_record]" initial_processor
      example_outputs 2 "''connection refused''" "[]"] refused_backfill
  by simp

subsection \<open>C6: the client is closed on every exit\<close>

text \<open>
  C6. Whenever \<^verbatim>\<open>start_change_stream\<close> is left, by the end of the iteration, by a
  PyMongoError of the subscription (which it absorbs) or by any other exception (which it
  lets through), the client has been closed, and closing it was the last thing done.
\<close>

theorem client_closed_on_exit:
  assumes "start_change_stream db s = (raised, s')"
  shows "\<not> client_open s' \<and> last (printed s') = ConnectionClosed \<and>
         (\<forall>e. raised = Some e \<longrightarrow> \<not> is_PyMongoError e)"
proof -
  obtain r s1 where l: "change_loop db (source_watch db) (print Listening s) = (r, s1)"
    by force
  with assms show ?thesis
    by (cases r)
       (auto simp: start_change_stream_def try_finally_def try_except_def close_client_def
          print_def split: if_splits)
qed

lemma exit_normal:
  "start_change_stream (closing_db []) initial_processor =
     (None, \<lparr>target = [], uuid_count = 0, printed = [Listening, ConnectionClosed],
             client_open = False\<rparr>)"
  by (simp add: pipeline_defs closing_db_def example_db_def initial_processor_def)

lemma exit_subscription_failure:
  "start_change_stream (closing_db [StreamFailure (PyMongoError ''connection lost'')])
     initial_processor =
     (None, \<lparr>target = [], uuid_count = 0,
             printed = [Listening, ChangeStreamError (PyMongoError ''connection lost''),
                        ConnectionClosed],
             client_open = False\<rparr>)"
  by (simp add: pipeline_defs closing_db_def example_db_def initial_processor_def)

lemma exit_other_exception:
  "start_change_stream (closing_db [Notification (VDict [])]) initial_processor =
     (Some (KeyError ''operationType''),
      \<lparr>target = [], uuid_count = 0, printed = [Listening, ConnectionClosed],
        client_open = False\<rparr>)"
  by (simp add: pipeline_defs closing_db_def example_db_def initial_processor_def)

theorem client_closed_on_exit_witness:
  "client_open initial_processor \<and>
   \<not> client_open (snd (start_change_stream (closing_db []) initial_processor)) \<and>
   \<not> client_open (snd (start_change_stream
        (closing_db [StreamFailure (PyMongoError ''connection lost'')]) initial_processor)) \<and>
   fst (start_change_stream (closing_db [Notification (VDict [])]) initial_processor)
     = Some (KeyError ''operationType'') \<and>
   \<not> client_open (snd (start_change_stream (closing_db [Notification (VDict [])])
        initial_processor))"
  using client_closed_on_exit [OF exit_normal] client_closed_on_exit [OF exit_subscription_failure]
    client_closed_on_exit [OF exit_other_exception] exit_normal exit_subscription_failure
    exit_other_exception
  by (simp add: initial_processor_def)

section \<open>Properties of \<^verbatim>\<open>determine_exchange\<close>\<close>

lemma ascii_upper_char_idem: "ascii_upper_char (ascii_upper_char c) = ascii_upper_char c"
proof (cases "97 \<le> (of_char c :: nat) \<and> (of_char c :: nat) \<le> 122")
  case True
  let ?d = "char_of (of_char c - 32 :: nat) :: char"
  from True have "(of_char c - 32 :: nat) < 256" by arith
  then have "(of_char ?d :: nat) = of_char c - 32" by simp
  moreover from True have "\<not> (97 \<le> (of_char c - 32 :: nat))" by arith
  ultimately have "ascii_upper_char ?d = ?d" by (simp add: ascii_upper_char_def Let_def)
  moreover from True have "ascii_upper_char c = ?d" by (simp add: ascii_upper_char_def Let_def)
  ultimately show ?thesis by simp
next
  case False
  then have "ascii_upper_char c = c" unfolding ascii_upper_char_def Let_def by auto
  then show ?thesis by simp
qed

lemma ascii_upper_idem: "ascii_upper (ascii_upper s) = ascii_upper s"
  by (simp add: ascii_upper_def ascii_upper_char_idem)

lemma max_from_in: "max_from key best xs \<in> insert best (set xs)"
  by (induction xs arbitrary: best) (auto split: if_splits)

lemma py_max_in: "py_max key xs = Inr x \<Longrightarrow> x \<in> set xs"
  using max_from_in by (cases xs) fastforce+

lemma py_max_nonempty: "xs \<noteq> [] \<Longrightarrow> \<exists>x. py_max key xs = Inr x"
  by (cases xs) simp_all

lemma determine_exchange_present:
  assumes "up BASE \<in> set (map Base df)"
    and "q \<in> set (map currency_code (filter (\<lambda>row. Base row = up BASE) df))"
  shows "determine_exchange up (Suc depth) ratio df BASE (Some q) =
           Some (Inr (generate_trading_urls up (up BASE) q
                        (filter (\<lambda>row. Base row = up BASE) df)))"
  using assms by (simp add: Let_def)

lemma determine_exchange_quote:
  assumes idem: "\<And>s. up (up s) = up s"
  shows "\<exists>v. determine_exchange up (Suc (Suc depth)) ratio df BASE (Some q) = Some (Inr v)"
proof (cases "up BASE \<in> set (map Base df)")
  case False
  then show ?thesis by (simp add: Let_def)
next
  case True
  let ?f = "filter (\<lambda>row. Base row = up BASE) df"
  show ?thesis
  proof (cases "q \<in> set (map currency_code ?f)")
    case q: True
    with determine_exchange_present[of up BASE df q "Suc depth" ratio, OF True] show ?thesis
      by blast
  next
    case q: False
    from True have "map currency_code ?f \<noteq> []" by (auto simp: filter_empty_conv)
    from py_max_nonempty[OF this] obtain m where
      m: "py_max (ratio q) (map currency_code ?f) = Inr m" by blast
    have up: "up (up BASE) \<in> set (map Base df)" using True by (simp add: idem)
    have "m \<in> set (map currency_code (filter (\<lambda>row. Base row = up (up BASE)) df))"
      using py_max_in[OF m] by (simp add: idem)
    from determine_exchange_present[of up "up BASE" df m depth ratio, OF up this]
    have "determine_exchange up (Suc depth) ratio df (up BASE) (Some m) =
            Some (Inr (generate_trading_urls up (up BASE) m ?f))" by (simp add: idem)
    moreover have "determine_exchange up (Suc (Suc depth)) ratio df BASE (Some q) =
            determine_exchange up (Suc depth) ratio df (up BASE) (Some m)"
      using True q m
      by (subst determine_exchange.simps(2)) (simp add: Let_def del: determine_exchange.simps(2))
    ultimately show ?thesis by simp
  qed
qed

lemma determine_exchange_three_calls:
  assumes idem: "\<And>s. up (up s) = up s"
  shows "\<exists>v. determine_exchange up 3 ratio df_cleaned BASE QUOTE = Some (Inr v)"
proof (cases QUOTE)
  case (Some q)
  with determine_exchange_quote[of up "Suc 0" ratio df_cleaned BASE q, OF idem] show ?thesis
    by (simp add: numeral_3_eq_3)
next
  case None
  show ?thesis
  proof (cases "up BASE \<in> set (map Base df_cleaned)")
    case False
    then show ?thesis by (simp add: numeral_3_eq_3 Let_def)
  next
    case True
    have "determine_exchange up 3 ratio df_cleaned BASE None =
          determine_exchange up (Suc (Suc 0)) ratio df_cleaned (up BASE) (Some ''USD'')"
      using True None unfolding numeral_3_eq_3
      by (subst determine_exchange.simps(2)) (simp add: Let_def del: determine_exchange.simps(2))
    with determine_exchange_quote[of up 0 ratio df_cleaned "up BASE" "''USD''", OF idem] None
    show ?thesis by simp
  qed
qed

lemma determine_exchange_mono:
  "determine_exchange up depth ratio df BASE QUOTE = Some r \<Longrightarrow>
   determine_exchange up (depth + k) ratio df BASE QUOTE = Some r"
proof (induction depth arbitrary: BASE QUOTE)
  case 0
  then show ?case by simp
next
  case (Suc depth)
  show ?case
  proof (cases "up BASE \<in> set (map Base df)")
    case False
    with Suc.prems show ?thesis by (simp add: Let_def)
  next
    case True
    let ?f = "filter (\<lambda>row. Base row = up BASE) df"
    show ?thesis
    proof (cases QUOTE)
      case None
      with True Suc.prems
      have "determine_exchange up depth ratio df (up BASE) (Some ''USD'') = Some r"
        by (simp add: Let_def)
      from Suc.IH[of "up BASE" "Some ''USD''", OF this] True None show ?thesis
        by (simp add: Let_def)
    next
      case (Some q)
      show ?thesis
      proof (cases "q \<in> set (map currency_code ?f)")
        case q: True
        with True Some Suc.prems show ?thesis by (simp add: Let_def)
      next
        case q: False
        show ?thesis
        proof (cases "py_max (ratio q) (map currency_code ?f)")
          case (Inl e)
          with q True Some Suc.prems show ?thesis by (simp add: Let_def)
        next
          case (Inr m)
          with q True Some Suc.prems
          have "determine_exchange up depth ratio df (up BASE) (Some m) = Some r"
            by (simp add: Let_def)
          from Suc.IH[of "up BASE" "Some m", OF this] Inr q True Some show ?thesis
            by (simp add: Let_def)
        qed
      qed
    qed
  qed
qed

lemma determine_exchange_bounded:
  assumes idem: "\<And>s. up (up s) = up s"
  shows "\<exists>v. \<forall>depth\<ge>3. determine_exchange up depth ratio df_cleaned BASE QUOTE = Some (Inr v)"
proof -
  from determine_exchange_three_calls[of up ratio df_cleaned BASE QUOTE, OF idem] obtain v where
    v: "determine_exchange up 3 ratio df_cleaned BASE QUOTE = Some (Inr v)" by blast
  have "determine_exchange up depth ratio df_cleaned BASE QUOTE = Some (Inr v)"
    if "3 \<le> depth" for depth
    using determine_exchange_mono[of up 3 ratio df_cleaned BASE QUOTE "Inr v" "depth - 3", OF v]
      that by simp
  then show ?thesis by blast
qed

subsection \<open>C10: \<^verbatim>\<open>determine_exchange\<close> returns within three nested calls\<close>

text \<open>
  C10. \<^verbatim>\<open>determine_exchange\<close> terminates on every input, and at most three nested
  calls occur: for every frame, base, quote and similarity ratio, the call returns a value
  (it raises nothing) as soon as three nested calls are allowed, and allowing more does not
  change what it returns. A missing quote becomes \<^verbatim>\<open>USD\<close>; a quote that is not among the
  currency codes of the base becomes the most similar of those codes, which is among them,
  so the next call returns. This holds with \<^verbatim>\<open>str.upper()\<close> as it is on ASCII strings,
  and with every upper-casing that changes nothing when applied a second time, as that of
  Python does on all strings.
\<close>

theorem determine_exchange_returns:
  "(\<exists>v. \<forall>depth\<ge>3.
      determine_exchange ascii_upper depth ratio df_cleaned BASE QUOTE = Some (Inr v)) \<and>
   ((\<forall>s. str_upper (str_upper s) = str_upper s) \<longrightarrow>
    (\<exists>v. \<forall>depth\<ge>3.
       determine_exchange str_upper depth ratio df_cleaned BASE QUOTE = Some (Inr v)))"
proof (intro conjI impI)
  show "\<exists>v. \<forall>depth\<ge>3.
      determine_exchange ascii_upper depth ratio df_cleaned BASE QUOTE = Some (Inr v)"
    by (rule determine_exchange_bounded[of ascii_upper ratio df_cleaned BASE QUOTE])
       (rule ascii_upper_idem)
next
  assume "\<forall>s. str_upper (str_upper s) = str_upper s"
  then have "\<And>s. str_upper (str_upper s) = str_upper s" by blast
  then show "\<exists>v. \<forall>depth\<ge>3.
      determine_exchange str_upper depth ratio df_cleaned BASE QUOTE = Some (Inr v)"
    by (rule determine_exchange_bounded[of str_upper ratio df_cleaned BASE QUOTE])
qed

lemma example_depths:
  "determine_exchange ascii_upper 2 common_prefix example_df ''btc'' None = None"
  "determine_exchange ascii_upper 3 common_prefix example_df ''btc'' None
     = Some (Inr example_urls)"
  by code_simp+

theorem determine_exchange_returns_witness:
  "determine_exchange ascii_upper 2 common_prefix example_df ''btc'' None = None \<and>
   determine_exchange ascii_upper 3 common_prefix example_df ''btc'' None
     = Some (Inr example_urls) \<and>
   determine_exchange ascii_upper 1000 common_prefix example_df ''btc'' None
     = Some (Inr example_urls)"
proof -
  from determine_exchange_returns [of common_prefix example_df "''btc''" None] obtain v where
    v: "\<forall>depth\<ge>3. determine_exchange ascii_upper depth common_prefix example_df ''btc'' None
          = Some (Inr v)" by blast
  from v have
    "determine_exchange ascii_upper 3 common_prefix example_df ''btc'' None = Some (Inr v)"
    by simp
  with example_depths(2) have "v = example_urls" by simp
  moreover from v have
    "determine_exchange ascii_upper 1000 common_prefix example_df ''btc'' None = Some (Inr v)"
    by simp
  ultimately show ?thesis using example_depths by simp
qed

end
